theory Spec2Isabelle
  imports Complex_Main
begin

section \<open>Session manager and tab registry (src/browser/connection.ts)\<close>

text \<open>
  The module keeps three variables: \<open>browser\<close>, \<open>currentPage\<close> and
  \<open>disconnectHandlerAttached\<close>. Everything else it touches lives in the browser
  engine (puppeteer): the browsers that were launched, whether each is still connected,
  the pages each one enumerates and the listeners registered on its \<open>disconnected\<close>
  event. The engine is part of the state here, so that every function of the module is a
  function from states to a result and a state.

  A browser handle is the position of the browser in \<open>engine\<close>; a page handle
  records the browser that opened it and a serial number, fresh for every page.
  Engine calls other than \<open>puppeteer.launch\<close> and \<open>page.goto\<close> are taken to
  succeed; the outcome of those two is an argument of the function that makes the call.
\<close>

datatype page = Page (owner: nat) (serial: nat)

record browser_obj =
  connected :: bool
  open_pages :: "page list"
  observers :: nat

record session =
  engine :: "browser_obj list"
  fresh :: nat
  browser :: "nat option"
  currentPage :: "page option"
  disconnectHandlerAttached :: bool

datatype error =
    NotInitialized
  | OutOfRange int nat
  | CannotCloseLast
  | LaunchFailure
  | NavigationFailure

text \<open>The state of the process before the first call: nothing launched, nothing set.\<close>

definition initial :: session where
  "initial = \<lparr>engine = [], fresh = 0, browser = None, currentPage = None,
               disconnectHandlerAttached = False\<rparr>"

text \<open>\<open>xs[i]\<close> in JavaScript: \<open>undefined\<close> outside the array, also at \<open>-1\<close>.\<close>

definition js_index :: "'a list \<Rightarrow> int \<Rightarrow> 'a option" where
  "js_index xs i = (if 0 \<le> i \<and> i < int (length xs) then Some (xs ! nat i) else None)"

text \<open>\<open>browser.pages()\<close>: the pages the engine enumerates for a handle, in its order.\<close>

definition pages_of :: "session \<Rightarrow> nat \<Rightarrow> page list" where
  "pages_of s b = open_pages (engine s ! b)"

definition set_pages :: "nat \<Rightarrow> page list \<Rightarrow> session \<Rightarrow> session" where
  "set_pages b ps s = s\<lparr>engine := (engine s)[b := (engine s ! b)\<lparr>open_pages := ps\<rparr>]\<rparr>"

text \<open>\<open>page.isClosed()\<close>: the page is no longer among the pages of its browser.\<close>

definition isClosed :: "session \<Rightarrow> page \<Rightarrow> bool" where
  "isClosed s p = (p \<notin> set (pages_of s (owner p)))"

text \<open>\<open>browser.newPage()\<close>: a fresh page, enumerated after the existing ones.\<close>

definition newPage :: "nat \<Rightarrow> session \<Rightarrow> page \<times> session" where
  "newPage b s =
     (let p = Page b (fresh s)
      in (p, (set_pages b (pages_of s b @ [p]) s)\<lparr>fresh := Suc (fresh s)\<rparr>))"

text \<open>\<open>page.close()\<close>: the page leaves the enumeration of its browser.\<close>

definition closePage :: "page \<Rightarrow> session \<Rightarrow> session" where
  "closePage p s = set_pages (owner p) (remove1 p (pages_of s (owner p))) s"

text \<open>
  The \<open>disconnected\<close> event of browser \<open>b\<close>: the engine marks the browser as
  disconnected and runs the listeners registered on it. The only listener the module
  registers is the closure of \<open>ensureBrowser\<close> (lines 18 to 23), which assigns the
  three module variables, whichever browser they refer to by then. A browser
  disconnects once.
\<close>

definition disconnected :: "nat \<Rightarrow> session \<Rightarrow> session" where
  "disconnected b s =
     (if \<not> connected (engine s ! b) then s
      else
        let s1 = s\<lparr>engine := (engine s)[b := (engine s ! b)\<lparr>connected := False\<rparr>]\<rparr>
        in if 0 < observers (engine s ! b)
           then s1\<lparr>browser := None, currentPage := None, disconnectHandlerAttached := False\<rparr>
           else s1)"

text \<open>
  \<open>puppeteer.launch\<close> either rejects or resolves to a new browser that already
  enumerates some number of pages (usually one blank page).
\<close>

datatype launch_outcome = LaunchRejects | LaunchResolves nat

text \<open>Lines 13 to 35 of \<open>ensureBrowser\<close>: the body of the \<open>if\<close>.\<close>

definition launch :: "launch_outcome \<Rightarrow> session \<Rightarrow> (error + page) \<times> session" where
  "launch lo s =
     (case lo of
        LaunchRejects \<Rightarrow> (Inl LaunchFailure, s)
      | LaunchResolves k \<Rightarrow>
          let b = length (engine s);
              ps = map (Page b) [fresh s ..< fresh s + k];
              s1 = s\<lparr>engine := engine s @
                        [\<lparr>connected = True, open_pages = ps,
                          observers = (if \<not> disconnectHandlerAttached s then 1 else 0)\<rparr>],
                     fresh := fresh s + k,
                     browser := Some b,
                     disconnectHandlerAttached := True\<rparr>
          in (case ps of
                p # _ \<Rightarrow> (Inr p, s1\<lparr>currentPage := Some p\<rparr>)
              | [] \<Rightarrow> (let (p, s2) = newPage b s1 in (Inr p, s2\<lparr>currentPage := Some p\<rparr>))))"

definition ensureBrowser :: "launch_outcome \<Rightarrow> session \<Rightarrow> (error + page) \<times> session" where
  "ensureBrowser lo s =
     (case browser s of
        None \<Rightarrow> launch lo s
      | Some b \<Rightarrow>
          if \<not> connected (engine s ! b) then launch lo s
          else (case currentPage s of
                  None \<Rightarrow> launch lo s
                | Some p \<Rightarrow> if isClosed s p then launch lo s else (Inr p, s)))"

definition selectTab :: "int \<Rightarrow> session \<Rightarrow> (error + page) \<times> session" where
  "selectTab tabIndex s =
     (case browser s of
        None \<Rightarrow> (Inl NotInitialized, s)
      | Some b \<Rightarrow>
          let pages = pages_of s b
          in if tabIndex < 0 \<or> tabIndex \<ge> int (length pages)
             then (Inl (OutOfRange tabIndex (length pages)), s)
             else (Inr (pages ! nat tabIndex), s\<lparr>currentPage := Some (pages ! nat tabIndex)\<rparr>))"

text \<open>
  \<open>page.goto\<close> either rejects (timeout, network error) or resolves to a response,
  possibly \<open>null\<close>, with an HTTP status. \<open>createNewTab\<close> awaits it and drops the
  response. \<open>if (url)\<close> is false for a missing and for an empty string.
\<close>

datatype goto_outcome = GotoRejects | GotoResolves "nat option"

definition createNewTab ::
  "string option \<Rightarrow> goto_outcome \<Rightarrow> session \<Rightarrow> (error + page) \<times> session" where
  "createNewTab url nav s =
     (case browser s of
        None \<Rightarrow> (Inl NotInitialized, s)
      | Some b \<Rightarrow>
          let (newP, s1) = newPage b s
          in if url \<noteq> None \<and> url \<noteq> Some [] \<and> nav = GotoRejects
             then (Inl NavigationFailure, s1)
             else (Inr newP, s1\<lparr>currentPage := Some newP\<rparr>))"

definition closeTab :: "int \<Rightarrow> session \<Rightarrow> (error + unit) \<times> session" where
  "closeTab tabIndex s =
     (case browser s of
        None \<Rightarrow> (Inl NotInitialized, s)
      | Some b \<Rightarrow>
          let pages = pages_of s b
          in if length pages \<le> 1 then (Inl CannotCloseLast, s)
             else if tabIndex < 0 \<or> tabIndex \<ge> int (length pages)
             then (Inl (OutOfRange tabIndex (length pages)), s)
             else
               let pageToClose = pages ! nat tabIndex;
                   s1 = (if Some pageToClose = currentPage s
                         then
                           let newIndex = (if tabIndex < int (length pages) - 1
                                           then tabIndex else tabIndex - 1)
                           in s\<lparr>currentPage :=
                                  js_index pages (if newIndex = tabIndex
                                                  then newIndex - 1 else newIndex)\<rparr>
                         else s)
               in (Inr (), closePage pageToClose s1))"

text \<open>
  \<open>browser.close()\<close> closes the browser with all its pages; puppeteer emits
  \<open>disconnected\<close> for a browser that is closed, so the listeners run before the
  assignments of lines 134 and 135.
\<close>

definition closeBrowser :: "session \<Rightarrow> session" where
  "closeBrowser s =
     (case browser s of
        None \<Rightarrow> s
      | Some b \<Rightarrow> (set_pages b [] (disconnected b s))\<lparr>browser := None, currentPage := None\<rparr>)"

text \<open>
  The invariant of the data model: a current page that is present belongs to the browser
  the module holds, and that browser is live (connected); without a browser there is
  no current page.
\<close>

definition session_inv :: "session \<Rightarrow> bool" where
  "session_inv s =
     ((case currentPage s of
         None \<Rightarrow> True
       | Some p \<Rightarrow>
           (case browser s of
              None \<Rightarrow> False
            | Some b \<Rightarrow> owner p = b \<and> connected (engine s ! b)))
      \<and> (browser s = None \<longrightarrow> currentPage s = None))"

text \<open>
  What the operations below rely on besides: the pages a browser enumerates are pages it
  opened, and the browser the module holds exists in the engine and is connected.
\<close>

definition healthy :: "session \<Rightarrow> bool" where
  "healthy s =
     ((\<forall>b < length (engine s). \<forall>p \<in> set (pages_of s b). owner p = b)
      \<and> (case browser s of
            None \<Rightarrow> True
          | Some b \<Rightarrow> b < length (engine s) \<and> connected (engine s ! b)))"

text \<open>Sequences of tab creations and closures.\<close>

datatype tab_op = Create "string option" goto_outcome | Close int

fun apply_tab_op :: "tab_op \<Rightarrow> session \<Rightarrow> session" where
  "apply_tab_op (Create url nav) s = snd (createNewTab url nav s)"
| "apply_tab_op (Close tabIndex) s = snd (closeTab tabIndex s)"

definition run_tab_ops :: "tab_op list \<Rightarrow> session \<Rightarrow> session" where
  "run_tab_ops ops s = fold apply_tab_op ops s"

subsection \<open>Reachable states used below\<close>

text \<open>The first call of \<open>ensureBrowser\<close>: one browser with its blank page.\<close>

definition one_tab :: session where
  "one_tab = snd (ensureBrowser (LaunchResolves 1) initial)"

definition two_tabs :: session where
  "two_tabs = snd (createNewTab None GotoRejects one_tab)"

text \<open>Three tabs open, tab 1 current.\<close>

definition three_tabs :: session where
  "three_tabs = snd (selectTab 1 (snd (createNewTab None GotoRejects two_tabs)))"

text \<open>
  Two tabs, tab 0 selected and then closed; the next tool call starts with
  \<open>ensureBrowser\<close>, as every call of \<open>handleToolCall\<close> does.
\<close>

definition closed_first_tab :: session where
  "closed_first_tab = snd (closeTab 0 (snd (selectTab 0 two_tabs)))"

definition relaunched :: session where
  "relaunched = snd (ensureBrowser (LaunchResolves 1) closed_first_tab)"

section \<open>Script evaluation (handleToolCall, case puppeteer_evaluate)\<close>

text \<open>
  What the handler does to the page: it registers a console listener, evaluates the
  wrapped script and removes the listener. A listener is a closure created by the call,
  so each call has its own, numbered here by a counter. \<open>page.evaluate\<close> either
  rejects with a message (the wrapped text does not parse, the page is gone, the value
  cannot be serialised) or resolves to a value, given by its JSON text, after the page
  has emitted some console messages (type and text).
\<close>

record page_obj =
  console_listeners :: "nat list"
  next_listener :: nat

datatype evaluate_outcome =
    EvaluateRejects string
  | EvaluateResolves string "(string \<times> string) list"

record call_tool_result =
  content :: string
  isError :: bool

definition page_on :: "nat \<Rightarrow> page_obj \<Rightarrow> page_obj" where
  "page_on l p = p\<lparr>console_listeners := console_listeners p @ [l]\<rparr>"

definition page_off :: "nat \<Rightarrow> page_obj \<Rightarrow> page_obj" where
  "page_off l p = p\<lparr>console_listeners := remove1 l (console_listeners p)\<rparr>"

definition join_lines :: "string list \<Rightarrow> string" where
  "join_lines ls = (case ls of [] \<Rightarrow> [] | l # rest \<Rightarrow> l @ concat (map (\<lambda>x. CHR 0x0A # x) rest))"

definition puppeteer_evaluate :: "evaluate_outcome \<Rightarrow> page_obj \<Rightarrow> call_tool_result \<times> page_obj" where
  "puppeteer_evaluate outcome p =
     (let consoleListener = next_listener p;
          p1 = page_on consoleListener (p\<lparr>next_listener := Suc consoleListener\<rparr>)
      in case outcome of
           EvaluateResolves result messages \<Rightarrow>
             (let logs = map (\<lambda>(ty, tx). ty @ '': '' @ tx) messages;
                  p2 = page_off consoleListener p1
              in (\<lparr>content = ''Execution result:'' @ [CHR 0x0A] @ result @ [CHR 0x0A, CHR 0x0A]
                           @ ''Console output:'' @ [CHR 0x0A] @ join_lines logs,
                    isError = False\<rparr>, p2))
         | EvaluateRejects message \<Rightarrow>
             (\<lparr>content = ''Script execution failed: '' @ message @ [CHR 0x0A, CHR 0x0A]
                          @ ''Possible causes:'' @ [CHR 0x0A]
                          @ ''- Syntax error in script'' @ [CHR 0x0A]
                          @ ''- Execution timeout'' @ [CHR 0x0A]
                          @ ''- Browser security restrictions'' @ [CHR 0x0A]
                          @ ''- Serialization issues with complex objects'',
                isError = True\<rparr>, p1))"

section \<open>Extraction of interactable elements (case puppeteer_interactable_elements)\<close>

text \<open>
  The script runs over \<open>document.querySelectorAll('*')\<close>: the elements of the page in
  document order. An element is given by what the script reads from it: its tag name,
  its attributes in order, its text content, four properties of its computed style, and
  the tag names of the children of its parent together with its own position among
  them. A string is a list of characters, one for each code unit of the JavaScript
  string; the white space of \<open>trim\<close> and of \<open>\\s\<close> is the ASCII part of it.
  \<open>maxElements\<close> is the JavaScript number of the request, passed to the loop as it
  comes (the schema asks for a number; nothing rounds it or bounds it from below). The
  numbers of a request are finite, and comparing a length with one is exact, so it is a
  real number here.
\<close>

record computed_style =
  display :: string
  visibility :: string
  opacity :: string
  cursor :: string

record element =
  tagName :: string
  attributes :: "(string \<times> string) list"
  textContent :: string
  style :: computed_style
  siblings :: "string list"
  child_index :: nat

record element_record =
  selector :: string
  description :: string
  tag :: string
  type_of :: "string option"
  attributes_of :: "(string \<times> string) list"
  alternatives :: "string list"

definition getAttribute :: "element \<Rightarrow> string \<Rightarrow> string option" where
  "getAttribute el n = map_of (attributes el) n"

definition hasAttribute :: "element \<Rightarrow> string \<Rightarrow> bool" where
  "hasAttribute el n = (getAttribute el n \<noteq> None)"

definition truthy :: "string option \<Rightarrow> bool" where
  "truthy v = (v \<noteq> None \<and> v \<noteq> Some [])"

definition reflected :: "element \<Rightarrow> string \<Rightarrow> string" where
  "reflected el n = (case getAttribute el n of None \<Rightarrow> [] | Some v \<Rightarrow> v)"

definition whitespace :: "char \<Rightarrow> bool" where
  "whitespace c = (c \<in> {CHR '' '', CHR 0x09, CHR 0x0A, CHR 0x0B, CHR 0x0C, CHR 0x0D})"

definition trim :: "string \<Rightarrow> string" where
  "trim s = rev (dropWhile whitespace (rev (dropWhile whitespace s)))"

definition toLowerCase :: "string \<Rightarrow> string" where
  "toLowerCase s =
     map (\<lambda>c. case map_of (zip ''ABCDEFGHIJKLMNOPQRSTUVWXYZ'' ''abcdefghijklmnopqrstuvwxyz'') c of
                 None \<Rightarrow> c | Some l \<Rightarrow> l) s"

fun string_of_nat :: "nat \<Rightarrow> string" where
  "string_of_nat n =
     (if n < 10 then [''0123456789'' ! n]
      else string_of_nat (n div 10) @ [''0123456789'' ! (n mod 10)])"

definition quoted :: "string \<Rightarrow> string" where
  "quoted v = CHR 0x22 # v @ [CHR 0x22]"

definition escape_quotes :: "string \<Rightarrow> string" where
  "escape_quotes s = concat (map (\<lambda>c. if c = CHR 0x22 then [CHR 0x5C, CHR 0x22] else [c]) s)"

definition hidden :: "element \<Rightarrow> bool" where
  "hidden el = (display (style el) = ''none'' \<or> visibility (style el) = ''hidden''
                \<or> opacity (style el) = ''0'')"

definition isInteractable :: "element \<Rightarrow> bool" where
  "isInteractable el =
     (tagName el \<in> set [''A'', ''BUTTON'', ''INPUT'', ''SELECT'', ''TEXTAREA'', ''DETAILS'',
                         ''SUMMARY'', ''LABEL'']
      \<or> hasAttribute el ''contenteditable''
      \<or> hasAttribute el ''onclick'' \<or> hasAttribute el ''onmousedown''
      \<or> hasAttribute el ''ondblclick''
      \<or> hasAttribute el ''onchange'' \<or> hasAttribute el ''oninput''
      \<or> (case getAttribute el ''role'' of
            None \<Rightarrow> False
          | Some r \<Rightarrow> r \<in> set [''button'', ''link'', ''menuitem'', ''tab'', ''checkbox'', ''radio'',
                               ''slider'', ''spinbutton'', ''textbox''])
      \<or> hasAttribute el ''tabindex''
      \<or> cursor (style el) = ''pointer'')"

definition nth_of_type :: "element \<Rightarrow> nat" where
  "nth_of_type el =
     (if child_index el < length (siblings el) \<and> siblings el ! child_index el = tagName el
      then length (filter (\<lambda>t. t = tagName el) (take (child_index el) (siblings el))) + 1
      else 0)"

definition selectors :: "element \<Rightarrow> string list" where
  "selectors el =
     (if reflected el ''id'' \<noteq> [] then [''#'' @ reflected el ''id''] else [])
     @ (case getAttribute el ''name'' of
          None \<Rightarrow> []
        | Some nameAttr \<Rightarrow> if nameAttr \<noteq> [] then [''[name='' @ quoted nameAttr @ '']''] else [])
     @ (case find (\<lambda>(n, v). take 5 n = ''data-'' \<and> v \<noteq> []) (attributes el) of
          None \<Rightarrow> []
        | Some (n, v) \<Rightarrow> [''['' @ n @ ''='' @ quoted v @ '']''])
     @ (let firstClass = takeWhile (\<lambda>c. \<not> whitespace c) (trim (reflected el ''class''))
        in if reflected el ''class'' \<noteq> [] \<and> firstClass \<noteq> [] then [''.'' @ firstClass] else [])
     @ (case getAttribute el ''type'' of
          None \<Rightarrow> []
        | Some typeAttr \<Rightarrow>
            if typeAttr \<noteq> [] then [toLowerCase (tagName el) @ ''[type='' @ quoted typeAttr @ '']'']
            else [])
     @ (let text = trim (textContent el)
        in if text \<noteq> [] \<and> length text \<le> 30
           then (if tagName el = ''BUTTON''
                 then [''button[text*='' @ quoted (escape_quotes text) @ '']'']
                 else if tagName el = ''A''
                 then [''a[text*='' @ quoted (escape_quotes text) @ '']'']
                 else [])
           else [])
     @ [toLowerCase (tagName el) @ '':nth-of-type('' @ string_of_nat (nth_of_type el) @ '')'']"

fun first_truthy :: "string option list \<Rightarrow> string \<Rightarrow> string" where
  "first_truthy [] d = d"
| "first_truthy (None # vs) d = first_truthy vs d"
| "first_truthy (Some v # vs) d = (if v \<noteq> [] then v else first_truthy vs d)"

definition bracketed :: "string option \<Rightarrow> string" where
  "bracketed v = (case v of None \<Rightarrow> [] | Some x \<Rightarrow> if x \<noteq> [] then ''['' @ x @ '']'' else [])"

definition describe :: "element \<Rightarrow> string" where
  "describe el =
     first_truthy
       [Some (take 50 (trim (textContent el))),
        getAttribute el ''aria-label'', getAttribute el ''title'',
        getAttribute el ''placeholder'', getAttribute el ''alt'',
        getAttribute el ''href'', getAttribute el ''value'']
       (tagName el @ bracketed (getAttribute el ''type'') @ bracketed (getAttribute el ''role''))"

definition collect_attributes :: "element \<Rightarrow> (string \<times> string) list" where
  "collect_attributes el =
     concat (map (\<lambda>n. case getAttribute el n of
                        None \<Rightarrow> []
                      | Some v \<Rightarrow> if v \<noteq> [] then [(n, v)] else [])
       [''href'', ''value'', ''src'', ''action'', ''target'', ''type'', ''name''])"

definition element_entry :: "element \<Rightarrow> element_record" where
  "element_entry el =
     (let sels = selectors el
      in \<lparr>selector = (case sels of [] \<Rightarrow> toLowerCase (tagName el)
                                  | s # _ \<Rightarrow> if s \<noteq> [] then s else toLowerCase (tagName el)),
          description = (if describe el \<noteq> [] then describe el else ''No description''),
          tag = tagName el,
          type_of = (if truthy (getAttribute el ''type'') then getAttribute el ''type'' else None),
          attributes_of = collect_attributes el,
          alternatives = take 2 (drop 1 sels)\<rparr>)"

fun scan :: "bool \<Rightarrow> real \<Rightarrow> element list \<Rightarrow> element_record list \<Rightarrow> element_record list" where
  "scan includeHidden maxElements [] elements = elements"
| "scan includeHidden maxElements (el # rest) elements =
     (if real (length elements) < maxElements
      then (if \<not> includeHidden \<and> hidden el then scan includeHidden maxElements rest elements
            else if \<not> isInteractable el then scan includeHidden maxElements rest elements
            else scan includeHidden maxElements rest (elements @ [element_entry el]))
      else elements)"

definition interactable_elements :: "bool \<Rightarrow> real \<Rightarrow> element list \<Rightarrow> element_record list" where
  "interactable_elements includeHidden maxElements allElements =
     scan includeHidden maxElements allElements []"

subsection \<open>The page of the scenario\<close>

text \<open>
  \<open><html><head></head><body><button id="go" class="primary">Go</button></body></html>\<close>
  as the script sees it: four elements in document order, \<open>head\<close> with the
  \<open>display: none\<close> of the user agent style sheet.
\<close>

definition visible_style :: computed_style where
  "visible_style =
     \<lparr>display = ''block'', visibility = ''visible'', opacity = ''1'', cursor = ''auto''\<rparr>"

definition go_button :: element where
  "go_button =
     \<lparr>tagName = ''BUTTON'', attributes = [(''id'', ''go''), (''class'', ''primary'')],
      textContent = ''Go'', style = visible_style, siblings = [''BUTTON''], child_index = 0\<rparr>"

definition go_document :: "element list" where
  "go_document =
     [\<lparr>tagName = ''HTML'', attributes = [], textContent = ''Go'', style = visible_style,
        siblings = [''HTML''], child_index = 0\<rparr>,
      \<lparr>tagName = ''HEAD'', attributes = [], textContent = [],
        style = visible_style\<lparr>display := ''none''\<rparr>,
        siblings = [''HEAD'', ''BODY''], child_index = 0\<rparr>,
      \<lparr>tagName = ''BODY'', attributes = [], textContent = ''Go'', style = visible_style,
        siblings = [''HEAD'', ''BODY''], child_index = 1\<rparr>,
      go_button]"


section \<open>The reachable states, computed\<close>

lemma one_tab_eq:
  "one_tab = \<lparr>engine = [\<lparr>connected = True, open_pages = [Page 0 0], observers = 1\<rparr>],
               fresh = 1, browser = Some 0, currentPage = Some (Page 0 0),
               disconnectHandlerAttached = True\<rparr>"
  by (simp add: one_tab_def ensureBrowser_def initial_def launch_def)

lemma two_tabs_eq:
  "two_tabs = \<lparr>engine = [\<lparr>connected = True, open_pages = [Page 0 0, Page 0 1], observers = 1\<rparr>],
               fresh = 2, browser = Some 0, currentPage = Some (Page 0 1),
               disconnectHandlerAttached = True\<rparr>"
  by (simp add: two_tabs_def one_tab_eq createNewTab_def newPage_def set_pages_def pages_of_def Let_def)

lemma three_tabs_eq:
  "three_tabs = \<lparr>engine = [\<lparr>connected = True, open_pages = [Page 0 0, Page 0 1, Page 0 2], observers = 1\<rparr>],
               fresh = 3, browser = Some 0, currentPage = Some (Page 0 1),
               disconnectHandlerAttached = True\<rparr>"
  by (simp add: three_tabs_def two_tabs_eq createNewTab_def selectTab_def newPage_def set_pages_def pages_of_def Let_def)

lemma closed_first_tab_eq:
  "closed_first_tab = \<lparr>engine = [\<lparr>connected = True, open_pages = [Page 0 1], observers = 1\<rparr>],
               fresh = 2, browser = Some 0, currentPage = None,
               disconnectHandlerAttached = True\<rparr>"
  by (simp add: closed_first_tab_def two_tabs_eq closeTab_def selectTab_def closePage_def set_pages_def pages_of_def js_index_def)

lemma relaunched_eq:
  "relaunched = \<lparr>engine = [\<lparr>connected = True, open_pages = [Page 0 1], observers = 1\<rparr>,
                            \<lparr>connected = True, open_pages = [Page 1 2], observers = 0\<rparr>],
               fresh = 3, browser = Some 1, currentPage = Some (Page 1 2),
               disconnectHandlerAttached = True\<rparr>"
  by (simp add: relaunched_def closed_first_tab_eq ensureBrowser_def launch_def)

section \<open>Closing tabs\<close>

text \<open>
  C10. With exactly one page open, \<open>closeTab\<close> at an index outside the range fails
  with the cannot-close-last error, not with the out-of-range error: the test on the
  number of pages comes first. No page is closed and the state, current page included,
  is the state before the call.
\<close>

theorem closeTab_single_page_out_of_range:
  assumes "browser s = Some b" and "length (pages_of s b) = 1"
    and "tabIndex < 0 \<or> tabIndex \<ge> int (length (pages_of s b))"
  shows "closeTab tabIndex s = (Inl CannotCloseLast, s)"
  using assms by (simp add: closeTab_def)

theorem closeTab_single_page_out_of_range_witness:
  "browser one_tab = Some 0 \<and> length (pages_of one_tab 0) = 1
   \<and> closeTab 5 one_tab = (Inl CannotCloseLast, one_tab)
   \<and> closeTab (- 1) one_tab = (Inl CannotCloseLast, one_tab)"
  using closeTab_single_page_out_of_range [of one_tab 0 5]
    closeTab_single_page_out_of_range [of one_tab 0 "- 1"]
  by (simp add: one_tab_eq pages_of_def)

subsection \<open>The number of open tabs\<close>

lemma pages_of_set_pages:
  "b < length (engine s) \<Longrightarrow>
   pages_of (set_pages b' ps s) b = (if b' = b then ps else pages_of s b)"
  by (simp add: pages_of_def set_pages_def nth_list_update)

lemma engine_length_set_pages [simp]: "length (engine (set_pages b ps s)) = length (engine s)"
  by (simp add: set_pages_def)

lemma browser_set_pages [simp]: "browser (set_pages b ps s) = browser s"
  by (simp add: set_pages_def)

lemma currentPage_set_pages [simp]: "currentPage (set_pages b ps s) = currentPage s"
  by (simp add: set_pages_def)

lemma createNewTab_keeps_tab:
  assumes "browser s = Some b" and "b < length (engine s)"
  shows "browser (snd (createNewTab url nav s)) = Some b
         \<and> length (engine (snd (createNewTab url nav s))) = length (engine s)
         \<and> pages_of (snd (createNewTab url nav s)) b = pages_of s b @ [Page b (fresh s)]"
  using assms
  by (simp add: createNewTab_def newPage_def Let_def pages_of_def set_pages_def)

lemma closeTab_keeps_tab:
  assumes "browser s = Some b" and "b < length (engine s)" and "pages_of s b \<noteq> []"
  shows "browser (snd (closeTab tabIndex s)) = Some b
         \<and> length (engine (snd (closeTab tabIndex s))) = length (engine s)
         \<and> pages_of (snd (closeTab tabIndex s)) b \<noteq> []"
proof (cases "length (pages_of s b) \<le> 1 \<or> tabIndex < 0 \<or> tabIndex \<ge> int (length (pages_of s b))")
  case True
  with assms show ?thesis by (auto simp: closeTab_def Let_def)
next
  case False
  define p where "p = pages_of s b ! nat tabIndex"
  from False have "nat tabIndex < length (pages_of s b)" by linarith
  then have mem: "p \<in> set (pages_of s b)" by (simp add: p_def)
  from False have two: "2 \<le> length (pages_of s b)" by simp
  have len: "length (remove1 p (pages_of s b)) = length (pages_of s b) - 1"
    using mem by (simp add: length_remove1)
  have rest: "remove1 p (pages_of s b) \<noteq> []"
    using len two by auto
  have "pages_of (closePage p s') b \<noteq> []"
    if "engine s' = engine s" for s'
    using that assms rest
    by (cases "owner p = b")
      (simp_all add: closePage_def pages_of_def set_pages_def)
  moreover have "browser (closePage p s') = browser s'"
    and "length (engine (closePage p s')) = length (engine s')" for s'
    by (simp_all add: closePage_def)
  ultimately show ?thesis
    using False assms by (simp add: closeTab_def Let_def p_def)
qed

lemma apply_tab_op_keeps_tab:
  assumes "browser s = Some b" and "b < length (engine s)" and "pages_of s b \<noteq> []"
  shows "browser (apply_tab_op op s) = Some b
         \<and> b < length (engine (apply_tab_op op s))
         \<and> pages_of (apply_tab_op op s) b \<noteq> []"
proof (cases op)
  case (Create url nav)
  then show ?thesis using createNewTab_keeps_tab [OF assms(1,2), of url nav] assms(2) by simp
next
  case (Close i)
  then show ?thesis using closeTab_keeps_tab [OF assms, of i] assms(2) by simp
qed

lemma run_tab_ops_keeps_tab:
  "browser s = Some b \<Longrightarrow> b < length (engine s) \<Longrightarrow> pages_of s b \<noteq> [] \<Longrightarrow>
   browser (run_tab_ops ops s) = Some b \<and> pages_of (run_tab_ops ops s) b \<noteq> []"
proof (induction ops arbitrary: s)
  case Nil
  then show ?case by (simp add: run_tab_ops_def)
next
  case (Cons op ops)
  from apply_tab_op_keeps_tab [OF Cons.prems, of op]
  have "browser (run_tab_ops ops (apply_tab_op op s)) = Some b
        \<and> pages_of (run_tab_ops ops (apply_tab_op op s)) b \<noteq> []"
    using Cons.IH by blast
  then show ?case by (simp add: run_tab_ops_def)
qed

text \<open>
  C7. While the module holds a browser, \<open>closeTab\<close> fails with the cannot-close-last
  error whenever fewer than two pages are open, whatever the index; the state is then
  the state before the call, so no page is closed. Hence no sequence of tab creations
  and closures, started with at least one page open, reaches zero open pages.
\<close>

theorem tabs_never_reach_zero:
  assumes "browser s = Some b" and "b < length (engine s)"
  shows "(length (pages_of s b) < 2 \<longrightarrow> closeTab tabIndex s = (Inl CannotCloseLast, s))
         \<and> (pages_of s b \<noteq> [] \<longrightarrow>
              browser (run_tab_ops ops s) = Some b \<and> pages_of (run_tab_ops ops s) b \<noteq> [])"
proof (intro conjI impI)
  assume "length (pages_of s b) < 2"
  with assms(1) show "closeTab tabIndex s = (Inl CannotCloseLast, s)"
    by (simp add: closeTab_def)
next
  assume "pages_of s b \<noteq> []"
  with assms run_tab_ops_keeps_tab [of s b ops]
  show "browser (run_tab_ops ops s) = Some b" by blast
next
  assume "pages_of s b \<noteq> []"
  with assms run_tab_ops_keeps_tab [of s b ops]
  show "pages_of (run_tab_ops ops s) b \<noteq> []" by blast
qed

theorem tabs_never_reach_zero_witness:
  "browser one_tab = Some 0 \<and> 0 < length (engine one_tab)
   \<and> length (pages_of one_tab 0) < 2
   \<and> closeTab 0 one_tab = (Inl CannotCloseLast, one_tab)
   \<and> pages_of (run_tab_ops [Close 0, Create None GotoRejects, Close 0, Close 0, Close 7] one_tab) 0 \<noteq> []"
  using tabs_never_reach_zero [of one_tab 0 0 "[Close 0, Create None GotoRejects, Close 0, Close 0, Close 7]"]
  by (simp add: one_tab_eq pages_of_def)

subsection \<open>The current page after closing it\<close>

text \<open>
  Closing the current page at a valid index \<open>i\<close> leaves \<open>pages[i - 1]\<close> as the
  current page, for the last index and for every other one: \<open>newIndex\<close> equals
  \<open>tabIndex\<close> whenever \<open>tabIndex\<close> is not the last index, and line 123 then
  steps back by one. At index 0 that is \<open>pages[-1]\<close>, which is \<open>undefined\<close>.
\<close>

lemma closeTab_repoints_current:
  assumes "browser s = Some b" and "2 \<le> length (pages_of s b)"
    and "0 \<le> tabIndex" and "tabIndex < int (length (pages_of s b))"
    and "currentPage s = Some (pages_of s b ! nat tabIndex)"
  shows "fst (closeTab tabIndex s) = Inr ()
         \<and> currentPage (snd (closeTab tabIndex s)) = js_index (pages_of s b) (tabIndex - 1)"
  using assms by (simp add: closeTab_def Let_def closePage_def)

text \<open>
  C1. The claim: after closing the current tab \<open>i\<close> of \<open>n\<close>, the current page is the
  page that was at \<open>i + 1\<close> when \<open>i < n - 1\<close>, and the page that was at \<open>i - 1\<close>
  when \<open>i = n - 1\<close>; with three tabs and tab 1 current, \<open>closeTab(1)\<close> leaves the
  former tab 2 current. The code at that input: two tabs remain, and the current page is
  the former tab 0.
\<close>

theorem closeTab_middle_of_three:
  "pages_of three_tabs 0 = [Page 0 0, Page 0 1, Page 0 2]
   \<and> currentPage three_tabs = Some (Page 0 1)
   \<and> fst (closeTab 1 three_tabs) = Inr ()
   \<and> pages_of (snd (closeTab 1 three_tabs)) 0 = [Page 0 0, Page 0 2]
   \<and> currentPage (snd (closeTab 1 three_tabs)) = Some (Page 0 0)"
  by (simp add: three_tabs_eq closeTab_def closePage_def set_pages_def pages_of_def js_index_def)

section \<open>Launching\<close>

lemma launch_resolves:
  "\<exists>p s1. launch (LaunchResolves k) s = (Inr p, s1)
     \<and> length (engine s1) = Suc (length (engine s))
     \<and> take (length (engine s)) (engine s1) = engine s
     \<and> browser s1 = Some (length (engine s))
     \<and> connected (engine s1 ! length (engine s))
     \<and> currentPage s1 = Some p
     \<and> owner p = length (engine s)
     \<and> p \<in> set (pages_of s1 (length (engine s)))
     \<and> p = hd (pages_of s1 (length (engine s)))"
proof (cases k)
  case 0
  then show ?thesis
    by (simp add: launch_def newPage_def set_pages_def pages_of_def Let_def)
next
  case (Suc j)
  then have "[fresh s ..< fresh s + k] = fresh s # [Suc (fresh s) ..< fresh s + k]"
    by (simp add: upt_conv_Cons del: upt_Suc)
  then show ?thesis
    by (simp add: launch_def pages_of_def Let_def del: upt_Suc)
qed

text \<open>
  C9. Called when the module holds no browser, \<open>ensureBrowser\<close> launches one and
  returns a page: the engine has one browser more, the browsers it had are untouched,
  the module holds the new browser, which is connected, and the page returned is the
  current page, the first page the new browser enumerates, open and opened by it. A
  second call in the state the first one left returns the same page and leaves the
  state as it is: no browser is added to the engine, and the outcome a launch would
  have is not consulted.
\<close>

theorem ensureBrowser_idempotent:
  assumes "browser s = None"
  shows "\<exists>p s1. ensureBrowser (LaunchResolves k) s = (Inr p, s1)
           \<and> length (engine s1) = Suc (length (engine s))
           \<and> take (length (engine s)) (engine s1) = engine s
           \<and> browser s1 = Some (length (engine s))
           \<and> connected (engine s1 ! length (engine s))
           \<and> currentPage s1 = Some p
           \<and> owner p = length (engine s)
           \<and> p = hd (pages_of s1 (length (engine s)))
           \<and> \<not> isClosed s1 p
           \<and> (\<forall>lo. ensureBrowser lo s1 = (Inr p, s1))"
proof -
  obtain p s1 where l: "launch (LaunchResolves k) s = (Inr p, s1)"
    and n: "length (engine s1) = Suc (length (engine s))"
    and t: "take (length (engine s)) (engine s1) = engine s"
    and b: "browser s1 = Some (length (engine s))"
    and c: "connected (engine s1 ! length (engine s))"
    and cp: "currentPage s1 = Some p"
    and ow: "owner p = length (engine s)"
    and op: "p \<in> set (pages_of s1 (length (engine s)))"
    and hd: "p = hd (pages_of s1 (length (engine s)))"
    using launch_resolves [of k s] by blast
  have first: "ensureBrowser (LaunchResolves k) s = (Inr p, s1)"
    using assms l by (simp add: ensureBrowser_def)
  have opened: "\<not> isClosed s1 p"
    using ow op by (simp add: isClosed_def)
  have again: "ensureBrowser lo s1 = (Inr p, s1)" for lo
    using b c cp opened by (simp add: ensureBrowser_def)
  from first n t b c cp ow hd opened again show ?thesis by blast
qed

theorem ensureBrowser_idempotent_witness:
  "browser initial = None
   \<and> ensureBrowser (LaunchResolves 1) initial = (Inr (Page 0 0), one_tab)
   \<and> engine initial = [] \<and> length (engine one_tab) = 1
   \<and> browser one_tab = Some 0 \<and> connected (engine one_tab ! 0)
   \<and> currentPage one_tab = Some (Page 0 0)
   \<and> pages_of one_tab 0 = [Page 0 0]
   \<and> \<not> isClosed one_tab (Page 0 0)
   \<and> ensureBrowser LaunchRejects one_tab = (Inr (Page 0 0), one_tab)
   \<and> ensureBrowser (LaunchResolves 1) one_tab = (Inr (Page 0 0), one_tab)"
proof -
  have h: "browser initial = None" by (simp add: initial_def)
  have f: "ensureBrowser (LaunchResolves 1) initial = (Inr (Page 0 0), one_tab)"
    by (simp add: one_tab_eq ensureBrowser_def launch_def initial_def)
  from ensureBrowser_idempotent [OF h, of 1] f
  have "\<not> isClosed one_tab (Page 0 0)
        \<and> (\<forall>lo. ensureBrowser lo one_tab = (Inr (Page 0 0), one_tab))" by simp
  moreover have "engine initial = []" by (simp add: initial_def)
  moreover have "length (engine one_tab) = 1 \<and> browser one_tab = Some 0
      \<and> connected (engine one_tab ! 0) \<and> currentPage one_tab = Some (Page 0 0)
      \<and> pages_of one_tab 0 = [Page 0 0]"
    by (simp add: one_tab_eq pages_of_def)
  ultimately show ?thesis using h f by simp
qed

section \<open>Creating a tab whose navigation fails\<close>

text \<open>
  The claim C3 at one input: one tab open, \<open>createNewTab\<close> with a URL for which
  \<open>page.goto\<close> rejects. The call fails and the new page stays open, but the current
  page is still the first one, not the new page.
\<close>

theorem createNewTab_goto_rejects_example:
  "fst (createNewTab (Some ''http://example.invalid/'') GotoRejects one_tab) = Inl NavigationFailure
   \<and> pages_of (snd (createNewTab (Some ''http://example.invalid/'') GotoRejects one_tab)) 0
       = [Page 0 0, Page 0 1]
   \<and> currentPage (snd (createNewTab (Some ''http://example.invalid/'') GotoRejects one_tab))
       = Some (Page 0 0)
   \<and> currentPage (snd (createNewTab (Some ''http://example.invalid/'') GotoRejects one_tab))
       \<noteq> Some (Page 0 1)"
  by (simp add: one_tab_eq createNewTab_def newPage_def set_pages_def pages_of_def Let_def)

text \<open>
  C3, amended. When \<open>page.goto\<close> rejects for a non-empty URL, \<open>createNewTab\<close> fails
  with the navigation failure; the new page has been opened and stays open, after the
  pages that were open, and the current page and the browser are the ones before the
  call. When \<open>page.goto\<close> resolves, whatever the response, the call returns the new
  page and makes it the current page.
\<close>

theorem createNewTab_goto_rejects:
  assumes "browser s = Some b" and "b < length (engine s)" and "url \<noteq> []"
  shows "fst (createNewTab (Some url) GotoRejects s) = Inl NavigationFailure
         \<and> pages_of (snd (createNewTab (Some url) GotoRejects s)) b
             = pages_of s b @ [Page b (fresh s)]
         \<and> currentPage (snd (createNewTab (Some url) GotoRejects s)) = currentPage s
         \<and> browser (snd (createNewTab (Some url) GotoRejects s)) = browser s
         \<and> fst (createNewTab (Some url) (GotoResolves r) s) = Inr (Page b (fresh s))
         \<and> currentPage (snd (createNewTab (Some url) (GotoResolves r) s)) = Some (Page b (fresh s))"
  using assms
  by (simp add: createNewTab_def newPage_def Let_def pages_of_def set_pages_def)

theorem createNewTab_goto_rejects_witness:
  "browser one_tab = Some 0 \<and> 0 < length (engine one_tab) \<and> ''http://example.invalid/'' \<noteq> []
   \<and> fst (createNewTab (Some ''http://example.invalid/'') GotoRejects one_tab) = Inl NavigationFailure
   \<and> pages_of (snd (createNewTab (Some ''http://example.invalid/'') GotoRejects one_tab)) 0
       = [Page 0 0, Page 0 1]
   \<and> currentPage (snd (createNewTab (Some ''http://example.invalid/'') GotoRejects one_tab))
       = Some (Page 0 0)"
  using createNewTab_goto_rejects [of one_tab 0 "''http://example.invalid/''"]
  by (simp add: one_tab_eq pages_of_def)

section \<open>The invariant of the session state\<close>

text \<open>
  In a healthy state every operation keeps the state healthy and keeps the invariant;
  for the \<open>disconnected\<close> event this needs the listener to be registered on the
  browser that disconnects, when that browser is the one the module holds.
\<close>

lemma nth_update_cases:
  "(xs[i := x]) ! j = (if i = j \<and> i < length xs then x else xs ! j)"
  by (cases "i < length xs") (auto simp: nth_list_update list_update_beyond)

lemma set_pages_frame:
  "length (engine (set_pages b ps s)) = length (engine s)"
  "browser (set_pages b ps s) = browser s"
  "currentPage (set_pages b ps s) = currentPage s"
  "connected (engine (set_pages b ps s) ! b') = connected (engine s ! b')"
  "pages_of (set_pages b ps s) b' = (if b = b' \<and> b < length (engine s) then ps else pages_of s b')"
  by (simp_all add: set_pages_def pages_of_def nth_update_cases)

lemma healthy_set_pages:
  assumes "healthy s" and "b < length (engine s) \<longrightarrow> (\<forall>p \<in> set ps. owner p = b)"
  shows "healthy (set_pages b ps s)"
  using assms by (auto simp: healthy_def set_pages_frame split: option.splits)

lemma healthy_closePage:
  assumes "healthy s"
  shows "healthy (closePage p s)"
  unfolding closePage_def
proof (rule healthy_set_pages [OF assms], intro impI ballI)
  fix q
  assume "owner p < length (engine s)" and "q \<in> set (remove1 p (pages_of s (owner p)))"
  then have "q \<in> set (pages_of s (owner p))" using set_remove1_subset by fast
  with \<open>owner p < length (engine s)\<close> assms show "owner q = owner p"
    by (simp add: healthy_def)
qed

lemma closePage_frame:
  "browser (closePage p s) = browser s"
  "currentPage (closePage p s) = currentPage s"
  "connected (engine (closePage p s) ! b) = connected (engine s ! b)"
  by (simp_all add: closePage_def set_pages_frame)

lemma healthy_currentPage_update:
  "healthy (s\<lparr>currentPage := c\<rparr>) = healthy s"
  by (simp add: healthy_def pages_of_def split: option.splits)

lemma healthy_fresh_update:
  "healthy (s\<lparr>fresh := n\<rparr>) = healthy s"
  by (simp add: healthy_def pages_of_def split: option.splits)

lemma session_inv_intro:
  assumes "browser s = Some b" and "connected (engine s ! b)"
    and "\<And>p. currentPage s = Some p \<Longrightarrow> owner p = b"
  shows "session_inv s"
  using assms by (simp add: session_inv_def split: option.splits)

lemma healthy_owner:
  assumes "healthy s" and "browser s = Some b" and "p \<in> set (pages_of s b)"
  shows "owner p = b"
  using assms by (simp add: healthy_def)

lemma healthy_connected:
  assumes "healthy s" and "browser s = Some b"
  shows "connected (engine s ! b)" and "b < length (engine s)"
  using assms by (simp_all add: healthy_def)

lemma session_inv_owner:
  assumes "session_inv s" and "currentPage s = Some p" and "browser s = Some b"
  shows "owner p = b"
  using assms by (simp add: session_inv_def)

lemma healthy_selectTab:
  assumes "healthy s" and "session_inv s"
  shows "healthy (snd (selectTab i s)) \<and> session_inv (snd (selectTab i s))"
proof (cases "browser s")
  case None
  with assms show ?thesis by (simp add: selectTab_def)
next
  case (Some b)
  show ?thesis
  proof (cases "i < 0 \<or> i \<ge> int (length (pages_of s b))")
    case True
    with Some assms show ?thesis by (simp add: selectTab_def Let_def)
  next
    case False
    then have "nat i < length (pages_of s b)" by linarith
    then have "pages_of s b ! nat i \<in> set (pages_of s b)" by simp
    then have o: "owner (pages_of s b ! nat i) = b"
      using healthy_owner [OF assms(1) Some] by blast
    have eq: "snd (selectTab i s) = s\<lparr>currentPage := Some (pages_of s b ! nat i)\<rparr>"
      using False Some by (simp add: selectTab_def Let_def)
    have "session_inv (s\<lparr>currentPage := Some (pages_of s b ! nat i)\<rparr>)"
      using Some healthy_connected(1) [OF assms(1) Some] o
      by (intro session_inv_intro [of _ b]) simp_all
    with assms(1) show ?thesis by (simp add: eq healthy_currentPage_update)
  qed
qed

lemma healthy_newPage:
  assumes "healthy s"
  shows "healthy (snd (newPage b s))"
proof -
  have "healthy (set_pages b (pages_of s b @ [Page b (fresh s)]) s)"
    using assms by (intro healthy_set_pages) (auto simp: healthy_def)
  then show ?thesis
    by (simp add: newPage_def Let_def healthy_fresh_update)
qed

lemma newPage_frame:
  "fst (newPage b s) = Page b (fresh s)"
  "browser (snd (newPage b s)) = browser s"
  "currentPage (snd (newPage b s)) = currentPage s"
  "connected (engine (snd (newPage b s)) ! b') = connected (engine s ! b')"
  by (simp_all add: newPage_def Let_def set_pages_frame)

lemma healthy_createNewTab:
  assumes "healthy s" and "session_inv s"
  shows "healthy (snd (createNewTab url nav s)) \<and> session_inv (snd (createNewTab url nav s))"
proof (cases "browser s")
  case None
  with assms show ?thesis by (simp add: createNewTab_def)
next
  case (Some b)
  let ?s1 = "snd (newPage b s)"
  have h1: "healthy ?s1" using assms(1) by (rule healthy_newPage)
  have c: "connected (engine ?s1 ! b)"
    using healthy_connected(1) [OF assms(1) Some] by (simp add: newPage_frame)
  have i1: "session_inv ?s1"
    using Some c session_inv_owner [OF assms(2) _ Some]
    by (intro session_inv_intro [of _ b]) (simp_all add: newPage_frame)
  have i2: "session_inv (?s1\<lparr>currentPage := Some (Page b (fresh s))\<rparr>)"
    using Some c by (intro session_inv_intro [of _ b]) (auto simp: newPage_frame)
  show ?thesis
  proof (cases "url \<noteq> None \<and> url \<noteq> Some [] \<and> nav = GotoRejects")
    case True
    then have "snd (createNewTab url nav s) = ?s1"
      using Some by (simp add: createNewTab_def split_beta)
    with h1 i1 show ?thesis by simp
  next
    case False
    then have "snd (createNewTab url nav s) = ?s1\<lparr>currentPage := Some (Page b (fresh s))\<rparr>"
      using Some by (auto simp: createNewTab_def split_beta newPage_frame)
    with h1 i2 show ?thesis by (simp add: healthy_currentPage_update)
  qed
qed

lemma healthy_closeTab:
  assumes "healthy s" and "session_inv s"
  shows "healthy (snd (closeTab i s)) \<and> session_inv (snd (closeTab i s))"
proof (cases "browser s")
  case None
  with assms show ?thesis by (simp add: closeTab_def)
next
  case (Some b)
  note c = healthy_connected(1) [OF assms(1) Some]
  show ?thesis
  proof (cases "length (pages_of s b) \<le> 1 \<or> i < 0 \<or> i \<ge> int (length (pages_of s b))")
    case True
    with Some assms show ?thesis by (auto simp: closeTab_def Let_def)
  next
    case False
    let ?p = "pages_of s b ! nat i"
    show ?thesis
    proof (cases "Some ?p = currentPage s")
      case True
      let ?s1 = "s\<lparr>currentPage := js_index (pages_of s b) (i - 1)\<rparr>"
      have eq: "snd (closeTab i s) = closePage ?p ?s1"
        using False Some True by (simp add: closeTab_def Let_def)
      have o: "owner q = b" if "js_index (pages_of s b) (i - 1) = Some q" for q
      proof -
        from that have "q \<in> set (pages_of s b)"
          by (auto simp: js_index_def split: if_splits)
        then show ?thesis using healthy_owner [OF assms(1) Some] by blast
      qed
      have "healthy ?s1" using assms(1) by (simp add: healthy_currentPage_update)
      then have 1: "healthy (closePage ?p ?s1)" by (rule healthy_closePage)
      have 2: "session_inv (closePage ?p ?s1)"
        using Some c o by (intro session_inv_intro [of _ b]) (simp_all add: closePage_frame)
      from 1 2 show ?thesis by (simp add: eq)
    next
      case ne: False
      have eq: "snd (closeTab i s) = closePage ?p s"
        using False Some ne by (simp add: closeTab_def Let_def)
      have 1: "healthy (closePage ?p s)" using assms(1) by (rule healthy_closePage)
      have 2: "session_inv (closePage ?p s)"
        using Some c session_inv_owner [OF assms(2) _ Some]
        by (intro session_inv_intro [of _ b]) (simp_all add: closePage_frame)
      from 1 2 show ?thesis by (simp add: eq)
    qed
  qed
qed

lemma healthy_launch:
  assumes "healthy s" and "session_inv s"
  shows "healthy (snd (launch lo s)) \<and> session_inv (snd (launch lo s))"
proof (cases lo)
  case LaunchRejects
  with assms show ?thesis by (simp add: launch_def)
next
  case (LaunchResolves k)
  define b where "b = length (engine s)"
  define ps where "ps = map (Page b) [fresh s ..< fresh s + k]"
  define s1 where
    "s1 = s\<lparr>engine := engine s @
               [\<lparr>connected = True, open_pages = ps,
                 observers = (if \<not> disconnectHandlerAttached s then 1 else 0)\<rparr>],
            fresh := fresh s + k, browser := Some b, disconnectHandlerAttached := True\<rparr>"
  have own: "\<forall>p \<in> set ps. owner p = b" by (auto simp: ps_def)
  have h1: "healthy s1"
    using assms(1) own
    by (auto simp: healthy_def s1_def b_def pages_of_def nth_append less_Suc_eq)
  have b1: "browser s1 = Some b" and c1: "connected (engine s1 ! b)"
    by (simp_all add: s1_def b_def)
  have l: "launch lo s =
             (case ps of p # _ \<Rightarrow> (Inr p, s1\<lparr>currentPage := Some p\<rparr>)
              | [] \<Rightarrow> (let (p, s2) = newPage b s1 in (Inr p, s2\<lparr>currentPage := Some p\<rparr>)))"
    unfolding LaunchResolves launch_def Let_def b_def ps_def s1_def
    by (simp only: launch_outcome.case)
  show ?thesis
  proof (cases ps)
    case Nil
    let ?s2 = "snd (newPage b s1)"
    have eq: "snd (launch lo s) = ?s2\<lparr>currentPage := Some (Page b (fresh s1))\<rparr>"
      using l Nil by (simp add: split_beta newPage_frame)
    have "healthy ?s2" using h1 by (rule healthy_newPage)
    moreover have "session_inv (?s2\<lparr>currentPage := Some (Page b (fresh s1))\<rparr>)"
      using b1 c1 by (intro session_inv_intro [of _ b]) (auto simp: newPage_frame)
    ultimately show ?thesis by (simp add: eq healthy_currentPage_update)
  next
    case (Cons p rest)
    then have eq: "snd (launch lo s) = s1\<lparr>currentPage := Some p\<rparr>"
      using l by simp
    from Cons own have "owner p = b" by simp
    then have "session_inv (s1\<lparr>currentPage := Some p\<rparr>)"
      using b1 c1 by (intro session_inv_intro [of _ b]) auto
    with h1 show ?thesis by (simp add: eq healthy_currentPage_update)
  qed
qed

lemma healthy_ensureBrowser:
  assumes "healthy s" and "session_inv s"
  shows "healthy (snd (ensureBrowser lo s)) \<and> session_inv (snd (ensureBrowser lo s))"
  using healthy_launch [OF assms, of lo] assms
  by (simp add: ensureBrowser_def split: option.splits)

lemma session_inv_cleared:
  "browser s = None \<Longrightarrow> currentPage s = None \<Longrightarrow> session_inv s"
  by (simp add: session_inv_def)

lemma healthy_engine_update:
  assumes "healthy s" and "browser s \<noteq> Some b"
  shows "healthy (s\<lparr>engine := (engine s)[b := (engine s ! b)\<lparr>connected := False\<rparr>]\<rparr>)"
  using assms
  by (auto simp: healthy_def pages_of_def nth_update_cases split: option.splits)

lemma healthy_cleared:
  assumes "\<forall>b < length (engine s). \<forall>p \<in> set (pages_of s b). owner p = b"
    and "browser s = None"
  shows "healthy s"
  using assms by (simp add: healthy_def)

lemma healthy_disconnected:
  assumes "healthy s" and "session_inv s"
    and "0 < observers (engine s ! b) \<or> browser s \<noteq> Some b"
  shows "healthy (disconnected b s) \<and> session_inv (disconnected b s)"
proof (cases "connected (engine s ! b)")
  case False
  with assms show ?thesis by (simp add: disconnected_def)
next
  case True
  let ?s1 = "s\<lparr>engine := (engine s)[b := (engine s ! b)\<lparr>connected := False\<rparr>]\<rparr>"
  have w: "\<forall>b' < length (engine ?s1). \<forall>p \<in> set (pages_of ?s1 b'). owner p = b'"
    using assms(1) by (auto simp: healthy_def pages_of_def nth_update_cases)
  show ?thesis
  proof (cases "0 < observers (engine s ! b)")
    case obs: True
    let ?s2 = "?s1\<lparr>browser := None, currentPage := None, disconnectHandlerAttached := False\<rparr>"
    have eq: "disconnected b s = ?s2"
      using True obs by (simp add: disconnected_def Let_def)
    have "healthy ?s2" using w by (intro healthy_cleared) (simp_all add: pages_of_def)
    moreover have "session_inv ?s2" by (intro session_inv_cleared) simp_all
    ultimately show ?thesis by (simp only: eq)
  next
    case nobs: False
    with assms(3) have nb: "browser s \<noteq> Some b" by simp
    have eq: "disconnected b s = ?s1"
      using True nobs by (simp add: disconnected_def Let_def)
    have 1: "healthy ?s1" using assms(1) nb by (rule healthy_engine_update)
    have 2: "session_inv ?s1"
      using assms(2) nb
      by (auto simp: session_inv_def nth_update_cases split: option.splits)
    from 1 2 show ?thesis by (simp only: eq)
  qed
qed

lemma healthy_closeBrowser:
  assumes "healthy s" and "session_inv s"
  shows "healthy (closeBrowser s) \<and> session_inv (closeBrowser s)"
proof (cases "browser s")
  case None
  with assms show ?thesis by (simp add: closeBrowser_def)
next
  case (Some b)
  let ?s2 = "(set_pages b [] (disconnected b s))\<lparr>browser := None, currentPage := None\<rparr>"
  have eq: "closeBrowser s = ?s2" using Some by (simp add: closeBrowser_def)
  have l: "length (engine (disconnected b s)) = length (engine s)"
    by (simp add: disconnected_def Let_def)
  have p: "pages_of (disconnected b s) b' = pages_of s b'" for b'
    by (simp add: disconnected_def Let_def pages_of_def nth_update_cases)
  have "\<forall>b' < length (engine ?s2). \<forall>q \<in> set (pages_of ?s2 b'). owner q = b'"
    using assms(1) l p
    by (auto simp: healthy_def pages_of_def set_pages_def nth_update_cases split: if_splits)
  then have "healthy ?s2" by (intro healthy_cleared) simp_all
  moreover have "session_inv ?s2" by (intro session_inv_cleared) simp_all
  ultimately show ?thesis by (simp only: eq)
qed

lemma healthy_initial: "healthy initial \<and> session_inv initial"
  by (simp add: healthy_def session_inv_def initial_def)

text \<open>
  C4. The claim: every browser handle gets the disconnect observer exactly once, and
  its disconnect event clears the browser handle and the current page. The code
  registers the observer only while \<open>disconnectHandlerAttached\<close> is false, and only
  the observer resets that variable. After the current tab 0 of two tabs is closed the
  current page is \<open>undefined\<close>, so the next \<open>ensureBrowser\<close> launches a second
  browser while the variable is still true: the second browser has no observer, its
  disconnect event clears nothing, and the event of the first browser, still running,
  clears the handle of the second.
\<close>

theorem second_browser_without_observer:
  "observers (engine one_tab ! 0) = 1
   \<and> currentPage closed_first_tab = None
   \<and> fst (ensureBrowser (LaunchResolves 1) closed_first_tab) = Inr (Page 1 2)
   \<and> browser relaunched = Some 1
   \<and> observers (engine relaunched ! 1) = 0
   \<and> browser (disconnected 1 relaunched) = Some 1
   \<and> currentPage (disconnected 1 relaunched) = Some (Page 1 2)
   \<and> browser (disconnected 0 relaunched) = None"
  by (simp add: one_tab_eq closed_first_tab_eq relaunched_eq disconnected_def ensureBrowser_def launch_def)

text \<open>
  C2. The claim: every operation, the disconnect event included, keeps the invariant
  that a current page belongs to the live browser the module holds. The states of the
  same run satisfy the invariant up to the second launch; the disconnect event of the
  second browser then leaves the current page pointing into a browser that is no longer
  connected.
\<close>

theorem invariant_lost_on_disconnect:
  "session_inv one_tab \<and> session_inv two_tabs \<and> session_inv (snd (selectTab 0 two_tabs))
   \<and> session_inv closed_first_tab \<and> session_inv relaunched
   \<and> browser relaunched = Some 1
   \<and> currentPage (disconnected 1 relaunched) = Some (Page 1 2)
   \<and> browser (disconnected 1 relaunched) = Some 1
   \<and> \<not> connected (engine (disconnected 1 relaunched) ! 1)
   \<and> \<not> session_inv (disconnected 1 relaunched)"
  by (simp add: session_inv_def one_tab_eq two_tabs_eq closed_first_tab_eq relaunched_eq
       selectTab_def pages_of_def disconnected_def)

theorem invariant_lost_on_disconnect_witness:
  "browser initial = None \<and> currentPage initial = None \<and> session_inv initial
   \<and> session_inv relaunched
   \<and> browser (disconnected 1 relaunched) = Some 1
   \<and> currentPage (disconnected 1 relaunched) = Some (Page 1 2)
   \<and> \<not> connected (engine (disconnected 1 relaunched) ! 1)
   \<and> \<not> session_inv (disconnected 1 relaunched)"
  using invariant_lost_on_disconnect
  by (simp add: initial_def session_inv_def)

section \<open>Console listeners around script evaluation\<close>

text \<open>
  When the evaluation resolves, the listener of the call is removed again: on a page
  whose listeners were all issued earlier the list is the one before the call.
\<close>

lemma evaluate_resolves_restores_listeners:
  assumes "\<forall>l \<in> set (console_listeners p). l < next_listener p"
  shows "console_listeners (snd (puppeteer_evaluate (EvaluateResolves result messages) p))
           = console_listeners p"
proof -
  from assms have "next_listener p \<notin> set (console_listeners p)" by auto
  then show ?thesis
    by (simp add: puppeteer_evaluate_def page_on_def page_off_def Let_def remove1_append)
qed

text \<open>
  C5. The claim: the handler removes its console listener on the success path and on
  the failure path. When \<open>page.evaluate\<close> rejects, control passes to the \<open>catch\<close>
  block, which does not call \<open>page.off\<close>: the call returns an error result and the
  page has one listener more than before, so two failing evaluations on a fresh page
  leave two listeners.
\<close>

theorem evaluate_rejects_leaves_listener:
  "console_listeners (snd (puppeteer_evaluate (EvaluateRejects message) p))
     = console_listeners p @ [next_listener p]
   \<and> isError (fst (puppeteer_evaluate (EvaluateRejects message) p))
   \<and> console_listeners (snd (puppeteer_evaluate (EvaluateRejects ''SyntaxError'')
        (snd (puppeteer_evaluate (EvaluateRejects ''SyntaxError'')
          \<lparr>console_listeners = [], next_listener = 0\<rparr>)))) = [0, 1]"
  by (simp add: puppeteer_evaluate_def page_on_def Let_def)

section \<open>Extraction\<close>

text \<open>
  The loop returns the entries of the first elements that pass both tests, as many as
  the least integer that is not below \<open>maxElements\<close>: a length is below the number
  exactly when it is below that integer.
\<close>

lemma scan_take:
  "scan includeHidden maxElements allElements elements =
     elements @ take (nat \<lceil>maxElements\<rceil> - length elements)
                  (map element_entry (filter (\<lambda>el. (includeHidden \<or> \<not> hidden el) \<and> isInteractable el) allElements))"
proof (induction allElements arbitrary: elements)
  case Nil
  then show ?case by simp
next
  case (Cons el rest)
  have iff: "real (length elements) < maxElements \<longleftrightarrow> int (length elements) < \<lceil>maxElements\<rceil>"
    by (simp add: less_ceiling_iff)
  show ?case
  proof (cases "real (length elements) < maxElements")
    case False
    with iff have "nat \<lceil>maxElements\<rceil> - length elements = 0" by linarith
    with False show ?thesis by simp
  next
    case True
    with iff have "nat \<lceil>maxElements\<rceil> - length elements
                     = Suc (nat \<lceil>maxElements\<rceil> - Suc (length elements))"
      by linarith
    with True Cons.IH show ?thesis by (cases includeHidden) simp_all
  qed
qed

lemma interactable_elements_take:
  "interactable_elements includeHidden maxElements allElements =
     take (nat \<lceil>maxElements\<rceil>)
       (map element_entry (filter (\<lambda>el. (includeHidden \<or> \<not> hidden el) \<and> isInteractable el) allElements))"
  by (simp add: interactable_elements_def scan_take)





subsection \<open>The button of the scenario\<close>

lemma go_button_selectors:
  assumes "tagName el = ''BUTTON''"
    and "attributes el = [(''id'', ''go''), (''class'', ''primary'')]"
    and "textContent el = ''Go''"
  shows "selectors el = [''#go'', ''.primary'', ''button[text*='' @ quoted ''Go'' @ '']'',
                         ''button:nth-of-type('' @ string_of_nat (nth_of_type el) @ '')'']"
  using assms
  by (simp add: selectors_def reflected_def getAttribute_def trim_def whitespace_def
      toLowerCase_def escape_quotes_def quoted_def Let_def)

lemma go_button_describe:
  assumes "textContent el = ''Go''"
  shows "describe el = ''Go''"
  using assms by (simp add: describe_def trim_def whitespace_def)

lemma go_document_result:
  "interactable_elements False 200 go_document =
     [\<lparr>selector = ''#go'', description = ''Go'', tag = ''BUTTON'', type_of = None,
       attributes_of = [],
       alternatives = [''.primary'', ''button[text*='' @ quoted ''Go'' @ '']'']\<rparr>]"
  by (simp add: interactable_elements_def go_document_def go_button_def visible_style_def
      hidden_def isInteractable_def hasAttribute_def getAttribute_def element_entry_def
      selectors_def reflected_def trim_def whitespace_def toLowerCase_def escape_quotes_def
      quoted_def describe_def collect_attributes_def truthy_def nth_of_type_def Let_def)

text \<open>
  The claim C6 on the page of the scenario: one entry is returned, and its alternatives
  are the class selector and the text selector. The nth-of-type selector is the fourth
  candidate and \<open>slice(1, 3)\<close> stops before it.
\<close>

theorem go_button_alternatives_example:
  "alternatives (hd (interactable_elements False 200 go_document))
     = [''.primary'', ''button[text*='' @ quoted ''Go'' @ '']'']
   \<and> ''button:nth-of-type(1)'' \<notin> set (alternatives (hd (interactable_elements False 200 go_document)))
   \<and> length (interactable_elements False 200 go_document) = 1"
  by (simp add: go_document_result quoted_def)

text \<open>
  C6, amended. For a page containing \<open><button id="go" class="primary">Go</button>\<close>,
  not hidden or with \<open>includeHidden\<close>, and with no more matching elements than
  \<open>maxElements\<close>, extraction returns an entry for the button whose primary selector is
  \<open>#go\<close>, whose alternatives are exactly \<open>.primary\<close> and the text selector
  \<open>button[text*="Go"]\<close>, and whose description is \<open>Go\<close>. The nth-of-type selector is
  computed, as the fourth candidate, and is not among the alternatives.
\<close>

theorem go_button_entry:
  assumes "tagName el = ''BUTTON''"
    and "attributes el = [(''id'', ''go''), (''class'', ''primary'')]"
    and "textContent el = ''Go''"
    and "el \<in> set allElements"
    and "includeHidden \<or> \<not> hidden el"
    and "length (filter (\<lambda>e. (includeHidden \<or> \<not> hidden e) \<and> isInteractable e) allElements)
           \<le> nat \<lceil>maxElements\<rceil>"
  shows "element_entry el \<in> set (interactable_elements includeHidden maxElements allElements)
         \<and> selector (element_entry el) = ''#go''
         \<and> alternatives (element_entry el) = [''.primary'', ''button[text*='' @ quoted ''Go'' @ '']'']
         \<and> description (element_entry el) = ''Go''
         \<and> selectors el ! 3 = ''button:nth-of-type('' @ string_of_nat (nth_of_type el) @ '')''"
proof -
  have "isInteractable el" using assms(1) by (simp add: isInteractable_def)
  with assms(4,5) have "el \<in> set (filter (\<lambda>e. (includeHidden \<or> \<not> hidden e) \<and> isInteractable e) allElements)"
    by simp
  then have "element_entry el \<in> set (interactable_elements includeHidden maxElements allElements)"
    using assms(6) by (simp add: interactable_elements_take)
  moreover have "selector (element_entry el) = ''#go''"
    and "alternatives (element_entry el) = [''.primary'', ''button[text*='' @ quoted ''Go'' @ '']'']"
    and "description (element_entry el) = ''Go''"
    using go_button_selectors [OF assms(1-3)] go_button_describe [OF assms(3)]
    by (simp_all add: element_entry_def Let_def)
  moreover have "selectors el ! 3 = ''button:nth-of-type('' @ string_of_nat (nth_of_type el) @ '')''"
    using go_button_selectors [OF assms(1-3)] by simp
  ultimately show ?thesis by blast
qed

theorem go_button_entry_witness:
  "tagName go_button = ''BUTTON''
   \<and> go_button \<in> set go_document
   \<and> \<not> hidden go_button
   \<and> element_entry go_button \<in> set (interactable_elements False 200 go_document)
   \<and> selector (element_entry go_button) = ''#go''
   \<and> alternatives (element_entry go_button) = [''.primary'', ''button[text*='' @ quoted ''Go'' @ '']'']
   \<and> description (element_entry go_button) = ''Go''
   \<and> selectors go_button ! 3 = ''button:nth-of-type(1)''"
proof -
  have 1: "tagName go_button = ''BUTTON''"
    and 2: "attributes go_button = [(''id'', ''go''), (''class'', ''primary'')]"
    and 3: "textContent go_button = ''Go''"
    by (simp_all add: go_button_def)
  have 4: "go_button \<in> set go_document" by (simp add: go_document_def)
  have h: "\<not> hidden go_button" by (simp add: hidden_def go_button_def visible_style_def)
  then have 5: "False \<or> \<not> hidden go_button" by simp
  have 6: "length (filter (\<lambda>e. (False \<or> \<not> hidden e) \<and> isInteractable e) go_document)
             \<le> nat \<lceil>200 :: real\<rceil>"
    by (simp add: go_document_def)
  have n: "nth_of_type go_button = 1" by (simp add: nth_of_type_def go_button_def)
  from go_button_entry [OF 1 2 3 4 5 6] 1 4 h n show ?thesis by simp
qed

end
